theory Spec2Isabelle
  imports Complex_Main "HOL-Library.Word" "HOL-Library.Char_ord"
begin

section \<open>Password strength analyzer: the C++ core (main.cpp)\<close>

text \<open>
  A \<open>std::string\<close> is a sequence of 8-bit \<open>char\<close>s, which is exactly HOL's \<open>string\<close>.
  \<open>length\<close> therefore counts the elements of the string, as \<open>string::length()\<close> does.
  The program never calls \<open>setlocale\<close>, so the character functions of \<open>cctype\<close> work in the
  "C" locale: only the ASCII letters and digits are classified, and every other byte value
  (in particular every byte of a multi-byte UTF-8 sequence) belongs to no class and is left
  unchanged by \<open>tolower\<close>.
\<close>

subsection \<open>Results\<close>

text \<open>\<open>PasswordCriterion::Result\<close>. The scores are C++ \<open>int\<close>s; no value ever leaves the
  range 0..100, so they are modelled as unbounded integers.\<close>

record Result =
  met :: bool
  message :: string
  score :: int

text \<open>\<open>PasswordChecker::FullResult\<close>; its field \<open>score\<close> is called \<open>total_score\<close> here,
  since a record field name can be used only once.\<close>

record FullResult =
  total_score :: int
  results :: "Result list"

subsection \<open>Library functions the source calls\<close>

definition isupper :: "char \<Rightarrow> bool" where
  "isupper c = (CHR ''A'' \<le> c \<and> c \<le> CHR ''Z'')"

definition islower :: "char \<Rightarrow> bool" where
  "islower c = (CHR ''a'' \<le> c \<and> c \<le> CHR ''z'')"

definition isdigit :: "char \<Rightarrow> bool" where
  "isdigit c = (CHR ''0'' \<le> c \<and> c \<le> CHR ''9'')"

definition tolower :: "char \<Rightarrow> char" where
  "tolower c = (if isupper c then char_of (of_char c + (32::nat)) else c)"

text \<open>\<open>s.find(c)\<close> for a character: the first position of \<open>c\<close>, \<open>None\<close> for \<open>npos\<close>.\<close>

fun find_char :: "'a list \<Rightarrow> 'a \<Rightarrow> nat option" where
  "find_char [] c = None"
| "find_char (x # xs) c = (if x = c then Some 0 else map_option Suc (find_char xs c))"

text \<open>Does \<open>s\<close> begin with \<open>w\<close>?\<close>

fun starts_with :: "'a list \<Rightarrow> 'a list \<Rightarrow> bool" where
  "starts_with s [] = True"
| "starts_with [] (y # w) = False"
| "starts_with (x # s) (y # w) = (x = y \<and> starts_with s w)"

text \<open>\<open>s.find(w)\<close> for a string: the first position where \<open>w\<close> occurs in \<open>s\<close>,
  \<open>None\<close> for \<open>npos\<close>.\<close>

fun find_str :: "'a list \<Rightarrow> 'a list \<Rightarrow> nat option" where
  "find_str [] w = (if starts_with [] w then Some 0 else None)"
| "find_str (x # s) w =
     (if starts_with (x # s) w then Some 0 else map_option Suc (find_str s w))"

text \<open>\<open>to_string\<close> of an unsigned value: its decimal digits.\<close>

definition digit_char :: "nat \<Rightarrow> char" where
  "digit_char d = char_of (48 + d)"

fun to_string :: "nat \<Rightarrow> string" where
  "to_string n = (if n < 10 then [digit_char n] else to_string (n div 10) @ [digit_char (n mod 10)])"

declare to_string.simps [simp del]

subsection \<open>The regular expression of RepetitionCriterion\<close>

text \<open>
  The pattern \<open>(.)\1\1\<close> is a sequence of three atoms: a capturing group around the
  wildcard, and two back-references to it. \<open>std::regex\<close> uses the ECMAScript grammar by
  default, in which the wildcard matches every character except a line terminator; which
  characters those are is the parameter \<open>dot\<close>. \<open>match_here\<close> matches the atoms at the
  start of the text, carrying the capture; \<open>regex_search\<close> tries every start position.
\<close>

datatype atom = CaptureAny | BackRef

fun match_here :: "('a \<Rightarrow> bool) \<Rightarrow> atom list \<Rightarrow> 'a option \<Rightarrow> 'a list \<Rightarrow> bool" where
  "match_here dot [] cap s = True"
| "match_here dot (BackRef # as) None s = match_here dot as None s"
| "match_here dot (a # as) cap [] = False"
| "match_here dot (CaptureAny # as) cap (c # s) = (dot c \<and> match_here dot as (Some c) s)"
| "match_here dot (BackRef # as) (Some g) (c # s) = (c = g \<and> match_here dot as (Some g) s)"

fun regex_search :: "('a \<Rightarrow> bool) \<Rightarrow> atom list \<Rightarrow> 'a list \<Rightarrow> bool" where
  "regex_search dot re [] = match_here dot re None []"
| "regex_search dot re (c # s) = (match_here dot re None (c # s) \<or> regex_search dot re s)"

definition repetitionRegex :: "atom list" where
  "repetitionRegex = [CaptureAny, BackRef, BackRef]"

text \<open>The line terminators of a \<open>char\<close> regex: line feed and carriage return.\<close>

definition dot_char :: "char \<Rightarrow> bool" where
  "dot_char c = (c \<noteq> CHR 0x0A \<and> c \<noteq> CHR 0x0D)"

subsection \<open>The criteria\<close>

datatype PasswordCriterion =
  LengthCriterion | TypeCriterion | RepetitionCriterion | DictionaryCriterion

fun getName :: "PasswordCriterion \<Rightarrow> string" where
  "getName LengthCriterion = ''Minimum Length (8 characters)''"
| "getName TypeCriterion = ''Character Complexity (4 types)''"
| "getName RepetitionCriterion = ''No Repetitive Sequences (AAA)''"
| "getName DictionaryCriterion = ''Not a Common Word/Pattern''"

fun scoreValue :: "PasswordCriterion \<Rightarrow> int" where
  "scoreValue LengthCriterion = 25"
| "scoreValue TypeCriterion = 50"
| "scoreValue RepetitionCriterion = 15"
| "scoreValue DictionaryCriterion = 10"

text \<open>\<open>LengthCriterion::check\<close>. \<open>minLength - password.length()\<close> is computed in
  \<open>size_t\<close>, a 64-bit unsigned type, and only on the branch where the criterion is not met.\<close>

definition minLength :: nat where
  "minLength = 8"

definition LengthCriterion_check :: "string \<Rightarrow> Result" where
  "LengthCriterion_check password =
     (let isMet = (length password \<ge> minLength);
          message = (if isMet then ''Great! Password is 8+ characters long.''
                     else ''Needs ''
                          @ to_string (unat ((of_nat minLength :: 64 word) - of_nat (length password)))
                          @ '' more character(s).'')
      in \<lparr>met = isMet, message = message,
          score = (if isMet then scoreValue LengthCriterion else 0)\<rparr>)"

text \<open>\<open>TypeCriterion::check\<close>. The four flags are the state of the loop over the
  characters; \<open>classify\<close> is the loop body, an \<open>if\<close>/\<open>else if\<close> chain.\<close>

record flags =
  hasUpper :: bool
  hasLower :: bool
  hasDigit :: bool
  hasSpecial :: bool

definition specials :: string where
  "specials = ''!@#$%^&*()-+={}[]|'' @ [CHR 0x5C] @ '':;'' @ [CHR 0x22, CHR 0x27]
              @ ''<>,.?/'' @ [CHR 0x60] @ ''~''"

definition classify :: "char \<Rightarrow> flags \<Rightarrow> flags" where
  "classify c f =
     (if isupper c then f\<lparr>hasUpper := True\<rparr>
      else if islower c then f\<lparr>hasLower := True\<rparr>
      else if isdigit c then f\<lparr>hasDigit := True\<rparr>
      else if find_char specials c \<noteq> None then f\<lparr>hasSpecial := True\<rparr>
      else f)"

fun scan :: "string \<Rightarrow> flags \<Rightarrow> flags" where
  "scan [] f = f"
| "scan (c # cs) f = scan cs (classify c f)"

definition no_flags :: flags where
  "no_flags = \<lparr>hasUpper = False, hasLower = False, hasDigit = False, hasSpecial = False\<rparr>"

definition typesMet :: "flags \<Rightarrow> nat" where
  "typesMet f = of_bool (hasUpper f) + of_bool (hasLower f) + of_bool (hasDigit f)
                + of_bool (hasSpecial f)"

definition missing :: "flags \<Rightarrow> string list" where
  "missing f = (if \<not> hasUpper f then [''Uppercase''] else [])
             @ (if \<not> hasLower f then [''Lowercase''] else [])
             @ (if \<not> hasDigit f then [''Digit''] else [])
             @ (if \<not> hasSpecial f then [''Special Char''] else [])"

text \<open>The loop that builds the message: every entry but the last is followed by a comma
  and a space, the last by a full stop.\<close>

fun join_missing :: "string list \<Rightarrow> string" where
  "join_missing [] = []"
| "join_missing [m] = m @ ''.''"
| "join_missing (m # ms) = m @ '', '' @ join_missing ms"

text \<open>The awarded score is computed in \<open>double\<close>: the quotient \<open>typesMet / 4.0\<close> is one of
  0, 0.25, 0.5, 0.75 and 1, and its product with 50 is a multiple of 0.5 below 51; all of
  these are binary fractions that a \<open>double\<close> holds exactly, so the arithmetic is that of
  the real numbers.\<close>

definition awardedScore :: "int \<Rightarrow> nat \<Rightarrow> int" where
  "awardedScore sv t = \<lfloor>real_of_int sv * (real t / 4)\<rfloor>"

definition TypeCriterion_verdict :: "flags \<Rightarrow> Result" where
  "TypeCriterion_verdict f =
     (let isMet = (typesMet f = 4);
          message = (if \<not> isMet then ''Missing: '' @ join_missing (missing f)
                     else ''Excellent! All 4 character types are present.'')
      in \<lparr>met = isMet, message = message,
          score = awardedScore (scoreValue TypeCriterion) (typesMet f)\<rparr>)"

definition TypeCriterion_check :: "string \<Rightarrow> Result" where
  "TypeCriterion_check password = TypeCriterion_verdict (scan password no_flags)"

text \<open>\<open>RepetitionCriterion::check\<close>.\<close>

definition RepetitionCriterion_check :: "string \<Rightarrow> Result" where
  "RepetitionCriterion_check password =
     (let isWeak = regex_search dot_char repetitionRegex password;
          isMet = \<not> isWeak;
          message = (if isMet then ''No obvious triple repetitions found.''
                     else ''Warning: Contains three or more identical characters in a row (e.g., ''
                          @ [CHR 0x27] @ ''aaa'' @ [CHR 0x27] @ '').'')
      in \<lparr>met = isMet, message = message,
          score = (if isMet then scoreValue RepetitionCriterion else 0)\<rparr>)"

text \<open>\<open>DictionaryCriterion::check\<close>. The weak terms are kept in an \<open>unordered_set\<close>, whose
  iteration order is not fixed; the loop only looks for one term that occurs, so the order
  of the list does not matter for its result.\<close>

definition weakList :: "string list" where
  "weakList = [''password'', ''123456'', ''qwerty'', ''admin'', ''qazwsx'', ''12345678'',
               ''abc'', ''god'', ''user'', ''access'']"

fun any_weak :: "'a list \<Rightarrow> 'a list list \<Rightarrow> bool" where
  "any_weak lowerPassword [] = False"
| "any_weak lowerPassword (weak # ws) =
     (if find_str lowerPassword weak \<noteq> None then True else any_weak lowerPassword ws)"

definition DictionaryCriterion_check :: "string \<Rightarrow> Result" where
  "DictionaryCriterion_check password =
     (let lowerPassword = map tolower password;
          isWeak = any_weak lowerPassword weakList;
          isMet = \<not> isWeak;
          message = (if isMet then ''Password does not contain common dictionary words.''
                     else ''Warning: Contains a common or dictionary word/sequence.'')
      in \<lparr>met = isMet, message = message,
          score = (if isMet then scoreValue DictionaryCriterion else 0)\<rparr>)"

subsection \<open>The checker\<close>

text \<open>The virtual call \<open>criterion->check(password)\<close>.\<close>

fun check :: "PasswordCriterion \<Rightarrow> string \<Rightarrow> Result" where
  "check LengthCriterion password = LengthCriterion_check password"
| "check TypeCriterion password = TypeCriterion_check password"
| "check RepetitionCriterion password = RepetitionCriterion_check password"
| "check DictionaryCriterion password = DictionaryCriterion_check password"

definition criteria :: "PasswordCriterion list" where
  "criteria = [LengthCriterion, TypeCriterion, RepetitionCriterion, DictionaryCriterion]"

text \<open>The loop of \<open>PasswordChecker::check\<close> over the criteria, with the running total and
  the results collected so far as its state.\<close>

fun run_criteria :: "PasswordCriterion list \<Rightarrow> string \<Rightarrow> int \<times> Result list \<Rightarrow> int \<times> Result list" where
  "run_criteria [] password acc = acc"
| "run_criteria (criterion # cs) password (totalScore, rs) =
     (let result = check criterion password
      in run_criteria cs password (totalScore + score result, rs @ [result]))"

definition PasswordChecker_check :: "string \<Rightarrow> FullResult" where
  "PasswordChecker_check password =
     (if password = [] then \<lparr>total_score = 0, results = []\<rparr>
      else (case run_criteria criteria password (0, []) of
              (totalScore, rs) \<Rightarrow> \<lparr>total_score = min totalScore 100, results = rs\<rparr>))"

section \<open>The JavaScript core (script.js)\<close>

text \<open>
  A JavaScript string is a sequence of 16-bit UTF-16 code units. \<open>length\<close>, the regular
  expression (it has no \<open>u\<close> flag) and \<open>includes\<close> work on code units; \<open>for ... of\<close> walks the
  string by code points. String literals of the source are ASCII, so \<open>js_str\<close> of the
  literal's characters gives their code units. Messages and names are kept as ASCII text.
\<close>

type_synonym js_string = "16 word list"

definition js_unit :: "char \<Rightarrow> 16 word" where
  "js_unit c = of_nat (of_char c)"

definition js_str :: "string \<Rightarrow> js_string" where
  "js_str s = map js_unit s"

subsection \<open>Built-in operations the source calls\<close>

text \<open>The string iterator behind \<open>for (const char of password)\<close>: a high surrogate
  followed by a low surrogate is one element of two units, every other unit is an element
  of its own.\<close>

definition is_high_surrogate :: "16 word \<Rightarrow> bool" where
  "is_high_surrogate u = (0xD800 \<le> u \<and> u \<le> 0xDBFF)"

definition is_low_surrogate :: "16 word \<Rightarrow> bool" where
  "is_low_surrogate u = (0xDC00 \<le> u \<and> u \<le> 0xDFFF)"

fun code_points :: "js_string \<Rightarrow> js_string list" where
  "code_points [] = []"
| "code_points [u] = [[u]]"
| "code_points (u # v # s) =
     (if is_high_surrogate u \<and> is_low_surrogate v then [u, v] # code_points s
      else [u] # code_points (v # s))"

text \<open>The relational operators on strings compare code unit by code unit, and a proper
  prefix is smaller; \<open>a >= b\<close> is the negation of \<open>a < b\<close> and \<open>a <= b\<close> that of
  \<open>b < a\<close>.\<close>

fun js_lt :: "js_string \<Rightarrow> js_string \<Rightarrow> bool" where
  "js_lt [] [] = False"
| "js_lt [] (y # ys) = True"
| "js_lt (x # xs) [] = False"
| "js_lt (x # xs) (y # ys) = (x < y \<or> (x = y \<and> js_lt xs ys))"

definition js_ge :: "js_string \<Rightarrow> js_string \<Rightarrow> bool" where
  "js_ge a b = (\<not> js_lt a b)"

definition js_le :: "js_string \<Rightarrow> js_string \<Rightarrow> bool" where
  "js_le a b = (\<not> js_lt b a)"

text \<open>\<open>s.includes(w)\<close>: \<open>w\<close> occurs in \<open>s\<close> at some position.\<close>

definition js_includes :: "js_string \<Rightarrow> js_string \<Rightarrow> bool" where
  "js_includes s w = (find_str s w \<noteq> None)"

text \<open>\<open>Array.prototype.join\<close> on strings.\<close>

fun join :: "string list \<Rightarrow> string \<Rightarrow> string" where
  "join [] sep = []"
| "join [m] sep = m"
| "join (m # ms) sep = m @ sep @ join ms sep"

text \<open>
  \<open>String.prototype.toLowerCase\<close> applies the Unicode case mapping, whose tables belong to
  the JavaScript engine and not to the repository. On a string of ASCII code units it turns
  \<open>A\<close>..\<open>Z\<close> into \<open>a\<close>..\<open>z\<close> and leaves every other unit as it is; for a string with
  a unit outside ASCII the engine's result is the parameter \<open>lower\<close>.
\<close>

definition js_ascii_lower :: "16 word \<Rightarrow> 16 word" where
  "js_ascii_lower u = (if 0x41 \<le> u \<and> u \<le> 0x5A then u + 0x20 else u)"

definition toLowerCase :: "(js_string \<Rightarrow> js_string) \<Rightarrow> js_string \<Rightarrow> js_string" where
  "toLowerCase lower s = (if list_all (\<lambda>u. u < 0x80) s then map js_ascii_lower s else lower s)"

text \<open>The wildcard of a JavaScript regular expression without the \<open>s\<close> flag matches every
  code unit except the four line terminators.\<close>

definition dot_js :: "16 word \<Rightarrow> bool" where
  "dot_js u = (u \<noteq> 0x000A \<and> u \<noteq> 0x000D \<and> u \<noteq> 0x2028 \<and> u \<noteq> 0x2029)"

subsection \<open>The criteria\<close>

text \<open>The four classes of script.js have the names and score values of their C++
  counterparts, which \<open>getName\<close> and \<open>scoreValue\<close> give. Numbers are doubles; all values
  here are small integers or exact binary fractions.\<close>

definition js_LengthCriterion_check :: "js_string \<Rightarrow> Result" where
  "js_LengthCriterion_check password =
     (let isMet = (length password \<ge> 8)
      in \<lparr>met = isMet,
          message = (if isMet then ''Great! Password is 8+ characters long.''
                     else ''Needs '' @ to_string (nat (max 0 (8 - int (length password))))
                          @ '' more character(s).''),
          score = (if isMet then scoreValue LengthCriterion else 0)\<rparr>)"

definition js_specials :: js_string where
  "js_specials = js_str (''!@#$%^&*()-+=~'' @ [CHR 0x60] @ ''[]{}|'' @ [CHR 0x5C] @ '':;''
                         @ [CHR 0x22, CHR 0x27] @ ''<>,.?/'')"

definition js_classify :: "js_string \<Rightarrow> flags \<Rightarrow> flags" where
  "js_classify char f =
     (if js_ge char (js_str ''A'') \<and> js_le char (js_str ''Z'') then f\<lparr>hasUpper := True\<rparr>
      else if js_ge char (js_str ''a'') \<and> js_le char (js_str ''z'') then f\<lparr>hasLower := True\<rparr>
      else if js_ge char (js_str ''0'') \<and> js_le char (js_str ''9'') then f\<lparr>hasDigit := True\<rparr>
      else if js_includes js_specials char then f\<lparr>hasSpecial := True\<rparr>
      else f)"

fun js_scan :: "js_string list \<Rightarrow> flags \<Rightarrow> flags" where
  "js_scan [] f = f"
| "js_scan (char # cs) f = js_scan cs (js_classify char f)"

definition js_typesMet :: "flags \<Rightarrow> nat" where
  "js_typesMet f = length (filter (\<lambda>b. b) [hasUpper f, hasLower f, hasDigit f, hasSpecial f])"

definition js_TypeCriterion_check :: "js_string \<Rightarrow> Result" where
  "js_TypeCriterion_check password =
     (let f = js_scan (code_points password) no_flags;
          typesMet = js_typesMet f;
          isMet = (typesMet = 4);
          missingTypes = missing f;
          message = (if isMet then ''Excellent! All 4 character types are present.''
                     else ''Missing: '' @ join missingTypes '', '' @ ''.'');
          awarded = awardedScore (scoreValue TypeCriterion) typesMet
      in \<lparr>met = isMet, message = message, score = awarded\<rparr>)"

definition js_RepetitionCriterion_check :: "js_string \<Rightarrow> Result" where
  "js_RepetitionCriterion_check password =
     (let isMet = (\<not> regex_search dot_js repetitionRegex password)
      in \<lparr>met = isMet,
          message = (if isMet then ''No obvious triple repetitions found.''
                     else ''Warning: Contains three or more identical characters in a row (e.g., ''
                          @ [CHR 0x27] @ ''aaa'' @ [CHR 0x27] @ '').''),
          score = (if isMet then scoreValue RepetitionCriterion else 0)\<rparr>)"

definition js_weakList :: "js_string list" where
  "js_weakList = map js_str [''password'', ''123456'', ''qwerty'', ''admin'', ''qazwsx'',
                             ''12345678'', ''abc'', ''god'', ''user'', ''access'']"

text \<open>\<open>weakList.some(weak => lowerPassword.includes(weak))\<close> stops at the first term
  that occurs.\<close>

fun some_includes :: "js_string \<Rightarrow> js_string list \<Rightarrow> bool" where
  "some_includes lowerPassword [] = False"
| "some_includes lowerPassword (weak # ws) =
     (if js_includes lowerPassword weak then True else some_includes lowerPassword ws)"

definition js_DictionaryCriterion_check :: "(js_string \<Rightarrow> js_string) \<Rightarrow> js_string \<Rightarrow> Result" where
  "js_DictionaryCriterion_check lower password =
     (let lowerPassword = toLowerCase lower password;
          isWeak = some_includes lowerPassword js_weakList;
          isMet = \<not> isWeak
      in \<lparr>met = isMet,
          message = (if isMet then ''Password does not contain common dictionary words.''
                     else ''Warning: Contains a common or dictionary word/sequence.''),
          score = (if isMet then scoreValue DictionaryCriterion else 0)\<rparr>)"

subsection \<open>The checker\<close>

fun js_check :: "(js_string \<Rightarrow> js_string) \<Rightarrow> PasswordCriterion \<Rightarrow> js_string \<Rightarrow> Result" where
  "js_check lower LengthCriterion password = js_LengthCriterion_check password"
| "js_check lower TypeCriterion password = js_TypeCriterion_check password"
| "js_check lower RepetitionCriterion password = js_RepetitionCriterion_check password"
| "js_check lower DictionaryCriterion password = js_DictionaryCriterion_check lower password"

text \<open>The report of script.js: each result carries the name of its criterion.\<close>

record js_FullResult =
  js_score :: int
  js_results :: "(string \<times> Result) list"

fun js_run_criteria ::
  "(js_string \<Rightarrow> js_string) \<Rightarrow> PasswordCriterion list \<Rightarrow> js_string
     \<Rightarrow> int \<times> (string \<times> Result) list \<Rightarrow> int \<times> (string \<times> Result) list" where
  "js_run_criteria lower [] password acc = acc"
| "js_run_criteria lower (criterion # cs) password (totalScore, rs) =
     (let result = js_check lower criterion password
      in js_run_criteria lower cs password
           (totalScore + score result, rs @ [(getName criterion, result)]))"

definition js_PasswordChecker_check :: "(js_string \<Rightarrow> js_string) \<Rightarrow> js_string \<Rightarrow> js_FullResult" where
  "js_PasswordChecker_check lower password =
     (if password = [] \<or> length password = 0 then \<lparr>js_score = 0, js_results = []\<rparr>
      else (case js_run_criteria lower criteria password (0, []) of
              (totalScore, rs) \<Rightarrow> \<lparr>js_score = min totalScore 100, js_results = rs\<rparr>))"

section \<open>One text in both string types\<close>

text \<open>
  The two programs receive the same text in different encodings: the terminal hands the C++
  program the UTF-8 bytes, the browser hands the script the UTF-16 code units. A text is a
  list of Unicode code points (numbers up to \<open>0x10FFFF\<close>, surrogates excluded).
\<close>

definition utf8_cp :: "nat \<Rightarrow> string" where
  "utf8_cp n =
     (if n < 0x80 then [char_of n]
      else if n < 0x800 then [char_of (0xC0 + n div 0x40), char_of (0x80 + n mod 0x40)]
      else if n < 0x10000 then
        [char_of (0xE0 + n div 0x1000), char_of (0x80 + n div 0x40 mod 0x40),
         char_of (0x80 + n mod 0x40)]
      else
        [char_of (0xF0 + n div 0x40000), char_of (0x80 + n div 0x1000 mod 0x40),
         char_of (0x80 + n div 0x40 mod 0x40), char_of (0x80 + n mod 0x40)])"

definition utf8 :: "nat list \<Rightarrow> string" where
  "utf8 cps = concat (map utf8_cp cps)"

definition utf16_cp :: "nat \<Rightarrow> js_string" where
  "utf16_cp n =
     (if n < 0x10000 then [of_nat n]
      else [of_nat (0xD800 + (n - 0x10000) div 0x400), of_nat (0xDC00 + (n - 0x10000) mod 0x400)])"

definition utf16 :: "nat list \<Rightarrow> js_string" where
  "utf16 cps = concat (map utf16_cp cps)"

section \<open>The specification's notions\<close>

text \<open>These definitions follow the words of the specification, not the code; the theorems
  below compare the code with them.\<close>

text \<open>\<open>w\<close> occurs in \<open>s\<close> as a substring.\<close>

definition contains :: "'a list \<Rightarrow> 'a list \<Rightarrow> bool" where
  "contains s w = (\<exists>xs ys. s = xs @ w @ ys)"

text \<open>\<open>s\<close> has a run of three or more identical consecutive characters, that is, a
  substring that is one character repeated three times.\<close>

definition triple_run :: "'a list \<Rightarrow> bool" where
  "triple_run s = (\<exists>xs c ys. s = xs @ [c, c, c] @ ys)"

text \<open>The number of the four character classes that have at least one representative in
  the password.\<close>

definition spec_typesMet :: "string \<Rightarrow> nat" where
  "spec_typesMet p = of_bool (\<exists>c\<in>set p. isupper c) + of_bool (\<exists>c\<in>set p. islower c)
                   + of_bool (\<exists>c\<in>set p. isdigit c) + of_bool (\<exists>c\<in>set p. c \<in> set specials)"

text \<open>A character that is in none of the four classes.\<close>

definition unclassified :: "char \<Rightarrow> bool" where
  "unclassified c = (\<not> isupper c \<and> \<not> islower c \<and> \<not> isdigit c \<and> c \<notin> set specials)"

section \<open>Properties of the C++ core\<close>

subsection \<open>Auxiliary facts\<close>

lemma starts_with_iff: "starts_with s w \<longleftrightarrow> (\<exists>ys. s = w @ ys)"
  by (induction s w rule: starts_with.induct) auto

lemma find_str_iff: "find_str s w \<noteq> None \<longleftrightarrow> contains s w"
proof (induction s)
  case Nil
  show ?case by (auto simp: contains_def starts_with_iff)
next
  case (Cons x s)
  show ?case
  proof (cases "starts_with (x # s) w")
    case True
    then obtain ys where "x # s = [] @ w @ ys" by (auto simp: starts_with_iff)
    then have "contains (x # s) w" unfolding contains_def by blast
    with True show ?thesis by simp
  next
    case False
    have "contains (x # s) w \<longleftrightarrow> contains s w"
    proof
      assume "contains (x # s) w"
      then obtain xs ys where e: "x # s = xs @ w @ ys" unfolding contains_def by blast
      show "contains s w"
      proof (cases xs)
        case Nil
        with e False show ?thesis by (simp add: starts_with_iff)
      next
        case (Cons a as)
        with e have "s = as @ w @ ys" by simp
        then show ?thesis unfolding contains_def by blast
      qed
    next
      assume "contains s w"
      then obtain xs ys where "s = xs @ w @ ys" unfolding contains_def by blast
      then have "x # s = (x # xs) @ w @ ys" by simp
      then show "contains (x # s) w" unfolding contains_def by blast
    qed
    with False Cons show ?thesis by simp
  qed
qed

lemma find_str_None_iff: "find_str s w = None \<longleftrightarrow> \<not> contains s w"
  using find_str_iff [of s w] by blast

lemma any_weak_iff: "any_weak s ws \<longleftrightarrow> (\<exists>w\<in>set ws. contains s w)"
  by (induction ws) (simp_all add: find_str_None_iff del: find_str.simps)

lemma find_char_None_iff: "find_char s c = None \<longleftrightarrow> c \<notin> set s"
  by (induction s) auto

lemma match_here_rep:
  "match_here dot repetitionRegex None s \<longleftrightarrow> (\<exists>c ys. s = [c, c, c] @ ys \<and> dot c)"
proof (cases s)
  case Nil
  then show ?thesis by (simp add: repetitionRegex_def)
next
  case (Cons a s1)
  show ?thesis
  proof (cases s1)
    case Nil
    with Cons show ?thesis by (simp add: repetitionRegex_def)
  next
    case (Cons b s2)
    show ?thesis
    proof (cases s2)
      case Nil
      with Cons \<open>s = a # s1\<close> show ?thesis by (simp add: repetitionRegex_def)
    next
      case (Cons c s3)
      with \<open>s1 = b # s2\<close> \<open>s = a # s1\<close> show ?thesis by (auto simp: repetitionRegex_def)
    qed
  qed
qed

lemma regex_search_rep:
  "regex_search dot repetitionRegex s \<longleftrightarrow> (\<exists>xs c ys. s = xs @ [c, c, c] @ ys \<and> dot c)"
proof (induction s)
  case Nil
  show ?case by (simp add: match_here_rep)
next
  case (Cons x s)
  have "(\<exists>xs c ys. x # s = xs @ [c, c, c] @ ys \<and> dot c) \<longleftrightarrow>
        (\<exists>c ys. x # s = [c, c, c] @ ys \<and> dot c) \<or> (\<exists>xs c ys. s = xs @ [c, c, c] @ ys \<and> dot c)"
    (is "?L \<longleftrightarrow> ?A \<or> ?B")
  proof
    assume ?L
    then obtain xs c ys where e: "x # s = xs @ [c, c, c] @ ys" and d: "dot c" by blast
    show "?A \<or> ?B"
    proof (cases xs)
      case Nil
      with e d show ?thesis by auto
    next
      case (Cons a as)
      with e have "s = as @ [c, c, c] @ ys" by simp
      with d show ?thesis by blast
    qed
  next
    assume "?A \<or> ?B"
    then show ?L
    proof
      assume ?A
      then obtain c ys where "x # s = [] @ [c, c, c] @ ys" "dot c" by auto
      then show ?L by blast
    next
      assume ?B
      then obtain xs c ys where "s = xs @ [c, c, c] @ ys" "dot c" by blast
      then have "x # s = (x # xs) @ [c, c, c] @ ys" "dot c" by simp_all
      then show ?L by blast
    qed
  qed
  with Cons show ?case by (simp add: match_here_rep)
qed

lemma regex_search_triple_run: "regex_search dot repetitionRegex s \<Longrightarrow> triple_run s"
  unfolding regex_search_rep triple_run_def by blast

lemma run_criteria_all:
  "run_criteria criteria p (0, []) =
     (score (LengthCriterion_check p) + score (TypeCriterion_check p)
        + score (RepetitionCriterion_check p) + score (DictionaryCriterion_check p),
      [LengthCriterion_check p, TypeCriterion_check p, RepetitionCriterion_check p,
       DictionaryCriterion_check p])"
  by (simp add: criteria_def Let_def)

lemma PasswordChecker_check_nonempty:
  "p \<noteq> [] \<Longrightarrow> PasswordChecker_check p =
     \<lparr>total_score = min (score (LengthCriterion_check p) + score (TypeCriterion_check p)
        + score (RepetitionCriterion_check p) + score (DictionaryCriterion_check p)) 100,
      results = [LengthCriterion_check p, TypeCriterion_check p, RepetitionCriterion_check p,
       DictionaryCriterion_check p]\<rparr>"
  by (simp add: PasswordChecker_check_def run_criteria_all)

lemma typesMet_le: "typesMet f \<le> 4"
  by (simp add: typesMet_def of_bool_def)

lemma awardedScore_50:
  "t \<le> 4 \<Longrightarrow> awardedScore 50 t = [0, 12, 25, 37, 50] ! t"
proof -
  assume "t \<le> 4"
  then consider "t = 0" | "t = 1" | "t = 2" | "t = 3" | "t = 4" by linarith
  then show ?thesis by cases (simp_all add: awardedScore_def)
qed

lemma awardedScore_div: "awardedScore sv t = (sv * int t) div 4"
proof -
  have "real_of_int sv * (real t / 4) = real_of_int (sv * int t) / real_of_int 4" by simp
  then show ?thesis unfolding awardedScore_def by (simp only: floor_divide_of_int_eq)
qed

lemma score_Length: "score (LengthCriterion_check p) = (if met (LengthCriterion_check p) then 25 else 0)"
  by (simp add: LengthCriterion_check_def Let_def)

lemma score_Repetition: "score (RepetitionCriterion_check p) = (if met (RepetitionCriterion_check p) then 15 else 0)"
  by (simp add: RepetitionCriterion_check_def Let_def)

lemma score_Dictionary: "score (DictionaryCriterion_check p) = (if met (DictionaryCriterion_check p) then 10 else 0)"
  by (simp add: DictionaryCriterion_check_def Let_def)

lemma score_Type: "score (TypeCriterion_check p) = [0, 12, 25, 37, 50] ! typesMet (scan p no_flags)"
  by (simp add: TypeCriterion_check_def TypeCriterion_verdict_def Let_def awardedScore_50 typesMet_le)

lemma met_Type: "met (TypeCriterion_check p) \<longleftrightarrow> typesMet (scan p no_flags) = 4"
  by (simp add: TypeCriterion_check_def TypeCriterion_verdict_def Let_def)

lemma score_Type_bounds: "0 \<le> score (TypeCriterion_check p) \<and> score (TypeCriterion_check p) \<le> 50"
proof -
  let ?t = "typesMet (scan p no_flags)"
  have "?t \<le> 4" by (rule typesMet_le)
  then consider "?t = 0" | "?t = 1" | "?t = 2" | "?t = 3" | "?t = 4" by linarith
  then show ?thesis by cases (simp_all add: score_Type)
qed

lemma score_Type_max: "score (TypeCriterion_check p) = 50 \<longleftrightarrow> met (TypeCriterion_check p)"
proof -
  let ?t = "typesMet (scan p no_flags)"
  have "?t \<le> 4" by (rule typesMet_le)
  then consider "?t = 0" | "?t = 1" | "?t = 2" | "?t = 3" | "?t = 4" by linarith
  then show ?thesis by cases (simp_all add: score_Type met_Type)
qed

lemma isupper_nat: "isupper c \<longleftrightarrow> 65 \<le> (of_char c :: nat) \<and> (of_char c :: nat) \<le> 90"
  by (simp add: isupper_def less_eq_char_def)

lemma islower_nat: "islower c \<longleftrightarrow> 97 \<le> (of_char c :: nat) \<and> (of_char c :: nat) \<le> 122"
  by (simp add: islower_def less_eq_char_def)

lemma isdigit_nat: "isdigit c \<longleftrightarrow> 48 \<le> (of_char c :: nat) \<and> (of_char c :: nat) \<le> 57"
  by (simp add: isdigit_def less_eq_char_def)

lemma upper_not_lower: "isupper c \<Longrightarrow> \<not> islower c"
  by (simp add: isupper_nat islower_nat)

lemma upper_not_digit: "isupper c \<Longrightarrow> \<not> isdigit c"
  by (simp add: isupper_nat isdigit_nat)

lemma lower_not_digit: "islower c \<Longrightarrow> \<not> isdigit c"
  by (simp add: islower_nat isdigit_nat)

lemma special_not_alnum:
  "c \<in> set specials \<Longrightarrow> \<not> isupper c \<and> \<not> islower c \<and> \<not> isdigit c"
  by (auto simp: specials_def isupper_nat islower_nat isdigit_nat)

lemma scan_hasUpper: "hasUpper (scan p f) \<longleftrightarrow> hasUpper f \<or> (\<exists>c\<in>set p. isupper c)"
  by (induction p arbitrary: f) (auto simp: classify_def)

lemma scan_hasLower: "hasLower (scan p f) \<longleftrightarrow> hasLower f \<or> (\<exists>c\<in>set p. islower c)"
  by (induction p arbitrary: f) (auto simp: classify_def upper_not_lower)

lemma scan_hasDigit: "hasDigit (scan p f) \<longleftrightarrow> hasDigit f \<or> (\<exists>c\<in>set p. isdigit c)"
  by (induction p arbitrary: f) (auto simp: classify_def upper_not_digit lower_not_digit)

lemma scan_hasSpecial: "hasSpecial (scan p f) \<longleftrightarrow> hasSpecial f \<or> (\<exists>c\<in>set p. c \<in> set specials)"
  by (induction p arbitrary: f) (auto simp: classify_def find_char_None_iff special_not_alnum)

lemma typesMet_scan: "typesMet (scan p no_flags) = spec_typesMet p"
  by (simp only: typesMet_def spec_typesMet_def scan_hasUpper scan_hasLower scan_hasDigit
      scan_hasSpecial) (simp add: no_flags_def)

lemma spec_typesMet_le: "spec_typesMet p \<le> 4"
  using typesMet_le [of "scan p no_flags"] by (simp only: typesMet_scan)

lemma classify_unclassified: "unclassified c \<Longrightarrow> classify c f = f"
  by (simp add: unclassified_def classify_def find_char_None_iff)

lemma scan_append: "scan (xs @ ys) f = scan ys (scan xs f)"
  by (induction xs arbitrary: f) simp_all

lemma typesMet_classify: "typesMet (classify c f) \<le> typesMet f + 1"
  by (simp add: classify_def typesMet_def of_bool_def)

lemma non_ascii_unclassified: "128 \<le> (of_char c :: nat) \<Longrightarrow> unclassified c"
  by (auto simp: unclassified_def isupper_nat islower_nat isdigit_nat specials_def)

lemma space_unclassified: "unclassified (CHR '' '')"
  by (simp add: unclassified_def isupper_nat islower_nat isdigit_nat specials_def)

lemma unat_shortfall: "n < 8 \<Longrightarrow> unat ((8 :: 64 word) - of_nat n) = 8 - n"
proof -
  assume "n < 8"
  then consider "n = 0" | "n = 1" | "n = 2" | "n = 3" | "n = 4" | "n = 5" | "n = 6" | "n = 7"
    by linarith
  then show ?thesis by cases simp_all
qed

lemma triple_run_code: "triple_run s \<longleftrightarrow> regex_search (\<lambda>_. True) repetitionRegex s"
  by (simp add: regex_search_rep triple_run_def)

lemma met_Repetition:
  "met (RepetitionCriterion_check p) \<longleftrightarrow> \<not> (\<exists>xs c ys. p = xs @ [c, c, c] @ ys \<and> dot_char c)"
  by (simp add: RepetitionCriterion_check_def Let_def regex_search_rep)

lemma met_Repetition_no_run: "\<not> triple_run p \<Longrightarrow> met (RepetitionCriterion_check p)"
  unfolding met_Repetition triple_run_def by blast

lemma met_Dictionary:
  "met (DictionaryCriterion_check p) \<longleftrightarrow> (\<forall>w\<in>set weakList. \<not> contains (map tolower p) w)"
  by (simp add: DictionaryCriterion_check_def Let_def any_weak_iff)

lemma met_Length: "met (LengthCriterion_check p) \<longleftrightarrow> 8 \<le> length p"
  by (simp add: LengthCriterion_check_def Let_def minLength_def)

lemma met_Repetition_without_line_terminators:
  assumes "\<forall>c\<in>set p. dot_char c"
  shows "met (RepetitionCriterion_check p) \<longleftrightarrow> \<not> triple_run p"
proof -
  have "dot_char c" if "p = xs @ [c, c, c] @ ys" for xs c ys
  proof -
    from that have "c \<in> set p" by simp
    with assms show ?thesis by blast
  qed
  then show ?thesis unfolding met_Repetition triple_run_def by blast
qed

text \<open>A text and the \<open>char\<close>s of its UTF-8 encoding: for an ASCII text they are the same
  sequence, so lengths and runs agree; beyond ASCII a character is several \<open>char\<close>s.\<close>

lemma utf8_ascii: "\<forall>n\<in>set cps. n < 128 \<Longrightarrow> utf8 cps = map char_of cps"
  by (induction cps) (simp_all add: utf8_def utf8_cp_def)

lemma utf8_ascii_length: "\<forall>n\<in>set cps. n < 128 \<Longrightarrow> length (utf8 cps) = length cps"
  by (simp add: utf8_ascii)

lemma triple_run_map:
  assumes "inj_on f (set s)"
  shows "triple_run (map f s) \<longleftrightarrow> triple_run s"
proof
  assume "triple_run (map f s)"
  then obtain xs c ys where "map f s = xs @ [c, c, c] @ ys" unfolding triple_run_def by blast
  then obtain us vs where s: "s = us @ vs" and v: "map f vs = [c, c, c] @ ys"
    by (auto simp: map_eq_append_conv)
  from v obtain a b d ws where vs: "vs = a # b # d # ws" and f: "f a = c" "f b = c" "f d = c"
    by (auto simp: map_eq_Cons_conv)
  from s vs have "a \<in> set s" "b \<in> set s" "d \<in> set s" by simp_all
  with f assms have "b = a" "d = a" by (auto dest: inj_onD)
  with s vs have "s = us @ [a, a, a] @ ws" by simp
  then show "triple_run s" unfolding triple_run_def by blast
next
  assume "triple_run s"
  then obtain xs c ys where "s = xs @ [c, c, c] @ ys" unfolding triple_run_def by blast
  then have "map f s = map f xs @ [f c, f c, f c] @ map f ys" by simp
  then show "triple_run (map f s)" unfolding triple_run_def by blast
qed

lemma utf8_ascii_triple_run:
  assumes "\<forall>n\<in>set cps. n < 128"
  shows "triple_run (utf8 cps) \<longleftrightarrow> triple_run cps"
proof -
  have "set cps \<subseteq> {0..<256}"
  proof
    fix n assume "n \<in> set cps"
    with assms have "n < 128" by blast
    then show "n \<in> {0..<256}" by simp
  qed
  then have "inj_on (char_of :: nat \<Rightarrow> char) (set cps)"
    by (rule inj_on_subset [OF inj_on_char_of_nat])
  then have "triple_run (map char_of cps) \<longleftrightarrow> triple_run cps" by (rule triple_run_map)
  then show ?thesis by (simp only: utf8_ascii [OF assms])
qed

lemma paesswoer_utf8:
  "utf8 [0x70, 0xE4, 0x73, 0x73, 0x77, 0xF6, 0x72] =
     [CHR 0x70, CHR 0xC3, CHR 0xA4, CHR 0x73, CHR 0x73, CHR 0x77, CHR 0xC3, CHR 0xB6, CHR 0x72]"
  by (simp add: utf8_def utf8_cp_def char_of_def bit_0)

lemma strong_text_utf8:
  "utf8 [88, 121, 55, 33, 109, 110, 111, 112, 0x20820] =
     ''Xy7!mnop'' @ [CHR 0xF0, CHR 0xA0, CHR 0xA0, CHR 0xA0]"
  by (simp add: utf8_def utf8_cp_def char_of_def bit_0)

subsection \<open>The claims about the criteria and the checker\<close>

text \<open>
  C1: for the input \<open>Passw0rd!\<close> the claim expects the total score 90 and the flags
  true, true, true, false. The code gives something else: the total score is not 90 and the
  flags are not these.
\<close>

theorem C1_counterexample:
  "\<not> (total_score (PasswordChecker_check ''Passw0rd!'') = 90
      \<and> map met (results (PasswordChecker_check ''Passw0rd!'')) = [True, True, True, False])"
proof -
  have "total_score (PasswordChecker_check ''Passw0rd!'') = 100" by code_simp
  then show ?thesis by simp
qed

text \<open>
  C1, as amended: for the input \<open>Passw0rd!\<close> the checker returns the total score 100 and the
  flags true, true, true, true, in the order Length, Complexity, Repetition, Dictionary. The
  lower-cased input is \<open>passw0rd!\<close>, in which the term \<open>password\<close> does not occur: it has
  the digit 0 where the term has the letter o.
\<close>

theorem C1_Passw0rd_scores_100:
  "total_score (PasswordChecker_check ''Passw0rd!'') = 100
   \<and> map met (results (PasswordChecker_check ''Passw0rd!'')) = [True, True, True, True]
   \<and> map tolower ''Passw0rd!'' = ''passw0rd!''
   \<and> find_str ''passw0rd!'' ''password'' = None"
  by code_simp

text \<open>
  C2: for every password the total score lies between 0 and 100. For a non-empty password
  the results are the verdicts of the four criteria in their order, and the total score is the
  smaller of 100 and the sum of their scores. For the empty password the total score is 0 and
  the list of results is empty: no criterion contributes a verdict.
\<close>

theorem C2_total_score:
  "0 \<le> total_score (PasswordChecker_check p) \<and> total_score (PasswordChecker_check p) \<le> 100
   \<and> (p \<noteq> [] \<longrightarrow>
        results (PasswordChecker_check p) = map (\<lambda>c. check c p) criteria
      \<and> length (results (PasswordChecker_check p)) = 4
      \<and> total_score (PasswordChecker_check p)
          = min 100 (sum_list (map score (results (PasswordChecker_check p)))))
   \<and> (p = [] \<longrightarrow>
        total_score (PasswordChecker_check p) = 0 \<and> results (PasswordChecker_check p) = [])"
proof (cases "p = []")
  case True
  then show ?thesis by (simp add: PasswordChecker_check_def)
next
  case False
  have "0 \<le> score (LengthCriterion_check p)" "0 \<le> score (RepetitionCriterion_check p)"
    "0 \<le> score (DictionaryCriterion_check p)" "0 \<le> score (TypeCriterion_check p)"
    by (simp_all add: score_Length score_Repetition score_Dictionary score_Type_bounds)
  with False show ?thesis
    by (simp add: PasswordChecker_check_nonempty criteria_def min.commute)
qed

theorem C2_total_score_witness:
  "results (PasswordChecker_check ''abc'') = map (\<lambda>c. check c ''abc'') criteria
   \<and> total_score (PasswordChecker_check ''abc'')
       = min 100 (sum_list (map score (results (PasswordChecker_check ''abc''))))
   \<and> total_score (PasswordChecker_check []) = 0 \<and> results (PasswordChecker_check []) = []"
  using C2_total_score [of "''abc''"] C2_total_score [of "[]"] by simp

text \<open>
  C3, at a password the claim gets wrong: three carriage returns in a row are a run of three identical
  characters, but the wildcard of the regular expression does not match a line terminator, so
  RepetitionCriterion reports the criterion as met and awards 15.
\<close>

theorem C3_repetition_line_terminators:
  "triple_run [CHR 0x0D, CHR 0x0D, CHR 0x0D]
   \<and> met (RepetitionCriterion_check [CHR 0x0D, CHR 0x0D, CHR 0x0D])
   \<and> score (RepetitionCriterion_check [CHR 0x0D, CHR 0x0D, CHR 0x0D]) = 15"
proof -
  have "[CHR 0x0D, CHR 0x0D, CHR 0x0D] = [] @ [CHR 0x0D, CHR 0x0D, CHR 0x0D] @ []" by simp
  then have "triple_run [CHR 0x0D, CHR 0x0D, CHR 0x0D]" unfolding triple_run_def by blast
  moreover have "met (RepetitionCriterion_check [CHR 0x0D, CHR 0x0D, CHR 0x0D])
     \<and> score (RepetitionCriterion_check [CHR 0x0D, CHR 0x0D, CHR 0x0D]) = 15"
    by code_simp
  ultimately show ?thesis by simp
qed

text \<open>
  C4: the awarded score of the complexity criterion is the floor of 50 times typesMet
  over 4, where typesMet counts the classes with a representative in the password; typesMet
  is at most 4, the values 0, 1, 2, 3, 4 give the scores 0, 12, 25, 37, 50, and the criterion is
  met exactly when typesMet is 4. This holds for every password, the empty one included.
\<close>

theorem C4_complexity_score:
  "spec_typesMet p \<le> 4
   \<and> score (TypeCriterion_check p) = \<lfloor>(50 * real (spec_typesMet p)) / 4\<rfloor>
   \<and> score (TypeCriterion_check p) = [0, 12, 25, 37, 50] ! spec_typesMet p
   \<and> (met (TypeCriterion_check p) \<longleftrightarrow> spec_typesMet p = 4)"
proof -
  have "score (TypeCriterion_check p) = awardedScore 50 (spec_typesMet p)"
    by (simp add: TypeCriterion_check_def TypeCriterion_verdict_def Let_def typesMet_scan)
  then have "score (TypeCriterion_check p) = \<lfloor>(50 * real (spec_typesMet p)) / 4\<rfloor>"
    by (simp add: awardedScore_def)
  moreover have "score (TypeCriterion_check p) = [0, 12, 25, 37, 50] ! spec_typesMet p"
    using score_Type [of p] by (simp only: typesMet_scan)
  moreover have "met (TypeCriterion_check p) \<longleftrightarrow> spec_typesMet p = 4"
    using met_Type [of p] by (simp only: typesMet_scan)
  ultimately show ?thesis using spec_typesMet_le [of p] by blast
qed

theorem C4_complexity_score_witness:
  "score (TypeCriterion_check ''abc'') = 12 \<and> \<not> met (TypeCriterion_check ''abc'')
   \<and> score (TypeCriterion_check ''aB3'') = 37"
proof -
  have 1: "spec_typesMet ''abc'' = 1" by code_simp
  have 3: "spec_typesMet ''aB3'' = 3" by code_simp
  show ?thesis
    using C4_complexity_score [of "''abc''"] C4_complexity_score [of "''aB3''"]
    by (simp add: 1 3)
qed

text \<open>
  C5: a character in none of the four classes leaves the flags of the loop as they are, so
  the verdict of the complexity criterion for a password with such a character inserted
  anywhere is the verdict without it; every byte from 128 on (any byte of a non-ASCII
  character) and the space are such characters. One character sets at most one flag: from no
  flags it reaches at most one class, and it never adds more than one to the count.
\<close>

theorem C5_unclassified_ignored:
  "(unclassified c \<longrightarrow> classify c f = f
       \<and> TypeCriterion_check (xs @ c # ys) = TypeCriterion_check (xs @ ys))
   \<and> (128 \<le> (of_char c :: nat) \<longrightarrow> unclassified c)
   \<and> unclassified (CHR '' '')
   \<and> typesMet (classify c no_flags) \<le> 1
   \<and> typesMet (classify c f) \<le> typesMet f + 1"
proof -
  have "typesMet (classify c no_flags) \<le> 1"
    using typesMet_classify [of c no_flags] by (simp add: typesMet_def no_flags_def)
  moreover have "typesMet (classify c f) \<le> typesMet f + 1"
    by (rule typesMet_classify)
  moreover have "TypeCriterion_check (xs @ c # ys) = TypeCriterion_check (xs @ ys)"
    if "unclassified c"
    using that by (simp add: classify_unclassified TypeCriterion_check_def scan_append)
  ultimately show ?thesis
    using classify_unclassified [of c f] non_ascii_unclassified [of c] space_unclassified
    by blast
qed

theorem C5_unclassified_ignored_witness:
  "unclassified (CHR 0xC3)
   \<and> TypeCriterion_check (''aB'' @ CHR 0xC3 # ''c1'') = TypeCriterion_check (''aB'' @ ''c1'')"
proof -
  have "128 \<le> (of_char (CHR 0xC3) :: nat)" by simp
  then show ?thesis
    using C5_unclassified_ignored [of "CHR 0xC3" no_flags "''aB''" "''c1''"] by blast
qed

text \<open>
  C6: the claim measures the password in characters. The text \<open>p\<close>, a-umlaut, \<open>ssw\<close>,
  o-umlaut, \<open>r\<close> has 7 characters, but its UTF-8 encoding, which is what the C++ core
  receives, has 9 \<open>char\<close>s: the length criterion is met and scores 25, although the
  character length is below 8.
\<close>

theorem C6_counterexample:
  "length [0x70, 0xE4, 0x73, 0x73, 0x77, 0xF6, 0x72 :: nat] = 7
   \<and> length (utf8 [0x70, 0xE4, 0x73, 0x73, 0x77, 0xF6, 0x72]) = 9
   \<and> met (LengthCriterion_check (utf8 [0x70, 0xE4, 0x73, 0x73, 0x77, 0xF6, 0x72]))
   \<and> score (LengthCriterion_check (utf8 [0x70, 0xE4, 0x73, 0x73, 0x77, 0xF6, 0x72])) = 25
   \<and> \<not> (met (LengthCriterion_check (utf8 [0x70, 0xE4, 0x73, 0x73, 0x77, 0xF6, 0x72]))
           \<longleftrightarrow> 8 \<le> length [0x70, 0xE4, 0x73, 0x73, 0x77, 0xF6, 0x72 :: nat])"
  unfolding paesswoer_utf8
  by (simp add: LengthCriterion_check_def Let_def minLength_def)

text \<open>
  C6, as amended: for a non-empty password the length criterion is met exactly when the
  \<open>std::string\<close> has at least 8 \<open>char\<close>s, that is bytes of the UTF-8 encoding (for an ASCII
  password, its characters); the score is 25 when it is met and 0 otherwise; when it is not
  met, 8 minus that length is not negative and the message states that number; for \<open>abc\<close>
  the message is \<open>Needs 5 more character(s).\<close>
\<close>

theorem C6_length:
  assumes "p \<noteq> []"
  shows "(met (LengthCriterion_check p) \<longleftrightarrow> 8 \<le> length p)
       \<and> score (LengthCriterion_check p) = (if met (LengthCriterion_check p) then 25 else 0)
       \<and> (\<not> met (LengthCriterion_check p) \<longrightarrow>
            0 \<le> 8 - int (length p)
          \<and> message (LengthCriterion_check p)
              = ''Needs '' @ to_string (nat (8 - int (length p))) @ '' more character(s).'')
       \<and> message (LengthCriterion_check ''abc'') = ''Needs 5 more character(s).''"
proof -
  have m: "met (LengthCriterion_check p) \<longleftrightarrow> 8 \<le> length p"
    by (simp add: LengthCriterion_check_def Let_def minLength_def)
  have "message (LengthCriterion_check p)
          = ''Needs '' @ to_string (nat (8 - int (length p))) @ '' more character(s).''"
    if "\<not> 8 \<le> length p"
  proof -
    from that have l: "length p < 8" by simp
    have "nat (8 - int (length p)) = 8 - length p" by simp
    with l that show ?thesis
      by (simp add: LengthCriterion_check_def Let_def minLength_def unat_shortfall)
  qed
  moreover have "message (LengthCriterion_check ''abc'') = ''Needs 5 more character(s).''"
    by code_simp
  ultimately show ?thesis using m score_Length [of p] by auto
qed

theorem C6_length_witness:
  "''abc'' \<noteq> [] \<and> \<not> met (LengthCriterion_check ''abc'')
   \<and> score (LengthCriterion_check ''abc'') = 0
   \<and> message (LengthCriterion_check ''abc'') = ''Needs 5 more character(s).''"
proof -
  have ne: "''abc'' \<noteq> []" by simp
  note t = C6_length [OF ne]
  from t have nm: "\<not> met (LengthCriterion_check ''abc'')" by simp
  from t have "score (LengthCriterion_check ''abc'')
      = (if met (LengthCriterion_check ''abc'') then 25 else 0)" by blast
  with nm have sc: "score (LengthCriterion_check ''abc'') = 0" by simp
  from t have "message (LengthCriterion_check ''abc'') = ''Needs 5 more character(s).''"
    by blast
  with ne nm sc show ?thesis by blast
qed

text \<open>
  C7: the dictionary criterion is met exactly when the lower-cased password contains none
  of the weak terms as a substring; the score is 10 when it is met and 0 otherwise; the weak
  terms are the ten of the specification; \<open>MyPassword99!\<close> is lower-cased to
  \<open>mypassword99!\<close> and does not meet the criterion.
\<close>

theorem C7_dictionary:
  "(met (DictionaryCriterion_check p) \<longleftrightarrow> (\<forall>w\<in>set weakList. \<not> contains (map tolower p) w))
   \<and> score (DictionaryCriterion_check p) = (if met (DictionaryCriterion_check p) then 10 else 0)
   \<and> set weakList = {''password'', ''123456'', ''qwerty'', ''admin'', ''qazwsx'', ''12345678'',
                      ''abc'', ''god'', ''user'', ''access''}
   \<and> map tolower ''MyPassword99!'' = ''mypassword99!''
   \<and> \<not> met (DictionaryCriterion_check ''MyPassword99!'')"
proof -
  have "set weakList = {''password'', ''123456'', ''qwerty'', ''admin'', ''qazwsx'', ''12345678'',
                      ''abc'', ''god'', ''user'', ''access''}"
    by (simp add: weakList_def)
  moreover have "map tolower ''MyPassword99!'' = ''mypassword99!''" by code_simp
  moreover have "\<not> met (DictionaryCriterion_check ''MyPassword99!'')" by code_simp
  ultimately show ?thesis using met_Dictionary [of p] score_Dictionary [of p] by blast
qed

theorem C7_dictionary_witness:
  "(\<exists>w\<in>set weakList. contains (map tolower ''MyPassword99!'') w)
   \<and> score (DictionaryCriterion_check ''MyPassword99!'') = 0"
proof -
  note t = C7_dictionary [of "''MyPassword99!''"]
  from t have nm: "\<not> met (DictionaryCriterion_check ''MyPassword99!'')" by blast
  from t have "score (DictionaryCriterion_check ''MyPassword99!'')
      = (if met (DictionaryCriterion_check ''MyPassword99!'') then 10 else 0)" by blast
  with nm have sc: "score (DictionaryCriterion_check ''MyPassword99!'') = 0" by simp
  from t nm have "\<exists>w\<in>set weakList. contains (map tolower ''MyPassword99!'') w" by blast
  with sc show ?thesis by blast
qed

text \<open>
  C8: the claim speaks of the characters of the password. The text \<open>Xy7!mnop\<close> followed
  by the character U+20820 has 9 characters, all different, with an uppercase letter, a
  lowercase letter, a digit and a special character, and no weak term. The UTF-8 encoding of
  its last character is the four bytes F0 A0 A0 A0, a run of three identical \<open>char\<close>s for
  the regular expression: the repetition criterion is not met and the total score is 85.
\<close>

theorem C8_counterexample:
  "8 \<le> length [88, 121, 55, 33, 109, 110, 111, 112, 0x20820 :: nat]
   \<and> distinct [88, 121, 55, 33, 109, 110, 111, 112, 0x20820 :: nat]
   \<and> \<not> triple_run [88, 121, 55, 33, 109, 110, 111, 112, 0x20820 :: nat]
   \<and> (\<exists>c\<in>set (utf8 [88, 121, 55, 33, 109, 110, 111, 112, 0x20820]). isupper c)
   \<and> (\<exists>c\<in>set (utf8 [88, 121, 55, 33, 109, 110, 111, 112, 0x20820]). islower c)
   \<and> (\<exists>c\<in>set (utf8 [88, 121, 55, 33, 109, 110, 111, 112, 0x20820]). isdigit c)
   \<and> (\<exists>c\<in>set (utf8 [88, 121, 55, 33, 109, 110, 111, 112, 0x20820]). c \<in> set specials)
   \<and> \<not> (\<exists>w\<in>set weakList.
           contains (map tolower (utf8 [88, 121, 55, 33, 109, 110, 111, 112, 0x20820])) w)
   \<and> total_score (PasswordChecker_check (utf8 [88, 121, 55, 33, 109, 110, 111, 112, 0x20820])) = 85
   \<and> map met (results (PasswordChecker_check (utf8 [88, 121, 55, 33, 109, 110, 111, 112, 0x20820])))
       = [True, True, False, True]"
proof -
  let ?p = "''Xy7!mnop'' @ [CHR 0xF0, CHR 0xA0, CHR 0xA0, CHR 0xA0]"
  have r: "\<not> triple_run [88, 121, 55, 33, 109, 110, 111, 112, 0x20820 :: nat]"
    by (simp add: triple_run_code repetitionRegex_def)
  have u: "\<exists>c\<in>set ?p. isupper c" by code_simp
  have l: "\<exists>c\<in>set ?p. islower c" by code_simp
  have d: "\<exists>c\<in>set ?p. isdigit c" by code_simp
  have s: "\<exists>c\<in>set ?p. c \<in> set specials" by code_simp
  have "\<not> any_weak (map tolower ?p) weakList" by code_simp
  then have w: "\<not> (\<exists>w\<in>set weakList. contains (map tolower ?p) w)"
    unfolding any_weak_iff .
  have t: "total_score (PasswordChecker_check ?p) = 85" by code_simp
  have m: "map met (results (PasswordChecker_check ?p)) = [True, True, False, True]"
    by code_simp
  have n: "8 \<le> length [88, 121, 55, 33, 109, 110, 111, 112, 0x20820 :: nat]" by simp
  have i: "distinct [88, 121, 55, 33, 109, 110, 111, 112, 0x20820 :: nat]" by simp
  show ?thesis unfolding strong_text_utf8 by (intro conjI n i r u l d s w t m)
qed

text \<open>
  C8, as amended: a password whose \<open>std::string\<close> has at least 8 \<open>char\<close>s (bytes of the UTF-8
  encoding), among them an uppercase letter, a lowercase letter, a digit and a special
  character, without a run of three identical consecutive \<open>char\<close>s and without a weak term
  in its lower-cased form, gets the total score 100. For an ASCII password the \<open>char\<close>s are
  its characters.
\<close>

theorem C8_strong_password:
  assumes "8 \<le> length p"
    and "\<exists>c\<in>set p. isupper c" and "\<exists>c\<in>set p. islower c" and "\<exists>c\<in>set p. isdigit c"
    and "\<exists>c\<in>set p. c \<in> set specials"
    and "\<not> triple_run p"
    and "\<forall>w\<in>set weakList. \<not> contains (map tolower p) w"
  shows "total_score (PasswordChecker_check p) = 100"
proof -
  from assms(1) have ne: "p \<noteq> []" by auto
  have "spec_typesMet p = 4" using assms(2-5) by (simp add: spec_typesMet_def)
  then have "score (TypeCriterion_check p) = 50"
    using score_Type [of p] by (simp add: typesMet_scan)
  moreover have "score (LengthCriterion_check p) = 25"
    using assms(1) by (simp add: score_Length met_Length)
  moreover have "score (RepetitionCriterion_check p) = 15"
    using assms(6) by (simp add: score_Repetition met_Repetition_no_run)
  moreover have "score (DictionaryCriterion_check p) = 10"
    using assms(7) by (simp add: score_Dictionary met_Dictionary)
  ultimately show ?thesis using ne by (simp add: PasswordChecker_check_nonempty)
qed

theorem C8_strong_password_witness:
  "total_score (PasswordChecker_check ''Xy7!mnop'') = 100"
proof -
  have 1: "8 \<le> length ''Xy7!mnop''" by simp
  have 2: "\<exists>c\<in>set ''Xy7!mnop''. isupper c" by code_simp
  have 3: "\<exists>c\<in>set ''Xy7!mnop''. islower c" by code_simp
  have 4: "\<exists>c\<in>set ''Xy7!mnop''. isdigit c" by code_simp
  have 5: "\<exists>c\<in>set ''Xy7!mnop''. c \<in> set specials" by code_simp
  have 6: "\<not> triple_run ''Xy7!mnop''" unfolding triple_run_code by code_simp
  have 7: "\<forall>w\<in>set weakList. \<not> contains (map tolower ''Xy7!mnop'') w"
    unfolding find_str_None_iff [symmetric] by code_simp
  show ?thesis by (rule C8_strong_password [OF 1 2 3 4 5 6 7])
qed

text \<open>
  C9: for a non-empty password and each criterion, the verdict is met exactly when its
  score is the maximum score of the criterion (25, 50, 15 and 10); and the total score is 100
  exactly when all four verdicts are met.
\<close>

theorem C9_met_iff_max:
  assumes "p \<noteq> []"
  shows "(\<forall>c\<in>set criteria. met (check c p) \<longleftrightarrow> score (check c p) = scoreValue c)
       \<and> map scoreValue criteria = [25, 50, 15, 10]
       \<and> (total_score (PasswordChecker_check p) = 100
            \<longleftrightarrow> (\<forall>r\<in>set (results (PasswordChecker_check p)). met r))"
proof -
  have t: "score (TypeCriterion_check p) = 50 \<longleftrightarrow> met (TypeCriterion_check p)"
    by (rule score_Type_max)
  have b: "0 \<le> score (TypeCriterion_check p) \<and> score (TypeCriterion_check p) \<le> 50"
    by (rule score_Type_bounds)
  have each: "\<forall>c\<in>set criteria. met (check c p) \<longleftrightarrow> score (check c p) = scoreValue c"
    using t by (simp add: criteria_def score_Length score_Repetition score_Dictionary)
  have "total_score (PasswordChecker_check p) = 100
            \<longleftrightarrow> (\<forall>r\<in>set (results (PasswordChecker_check p)). met r)"
    using assms t b
    by (auto simp: PasswordChecker_check_nonempty score_Length score_Repetition score_Dictionary
        split: if_splits)
  with each show ?thesis by (simp add: criteria_def)
qed

theorem C9_met_iff_max_witness:
  "''Xy7!mnop'' \<noteq> [] \<and> list_all met (results (PasswordChecker_check ''Xy7!mnop''))
   \<and> \<not> list_all met (results (PasswordChecker_check ''abc''))"
proof -
  have ne: "''Xy7!mnop'' \<noteq> []" and ne': "''abc'' \<noteq> []" by simp_all
  have t: "total_score (PasswordChecker_check ''Xy7!mnop'') = 100" by code_simp
  have t': "total_score (PasswordChecker_check ''abc'') \<noteq> 100" by code_simp
  show ?thesis
    using C9_met_iff_max [OF ne] C9_met_iff_max [OF ne'] t t' by (simp add: list_all_iff)
qed

section \<open>The JavaScript core against the C++ core\<close>

subsection \<open>An ASCII string in both string types\<close>


lemma of_char_less: "(of_char c :: nat) < 256"
  by (cases c) (simp add: of_char_def)

lemma unat_js_unit: "unat (js_unit c) = of_char c"
proof -
  have "(of_char c :: nat) < 2 ^ 16" by (rule less_trans [OF of_char_less]) simp
  then show ?thesis by (simp add: js_unit_def unat_of_nat)
qed

lemma inj_js_unit: "inj js_unit"
proof (rule injI)
  fix a b assume "js_unit a = js_unit b"
  then have "unat (js_unit a) = unat (js_unit b)" by simp
  then have "(of_char a :: nat) = of_char b" by (simp only: unat_js_unit)
  then show "a = b" by simp
qed

lemma js_unit_eq_iff: "js_unit a = js_unit b \<longleftrightarrow> a = b"
  using inj_js_unit by (auto dest: injD)

lemma js_unit_le: "js_unit a \<le> js_unit b \<longleftrightarrow> a \<le> b"
  by (simp add: word_le_nat_alt unat_js_unit less_eq_char_def)

lemma js_unit_less: "js_unit a < js_unit b \<longleftrightarrow> a < b"
  by (simp add: word_less_nat_alt unat_js_unit less_char_def)

lemma not_high_surrogate: "\<not> is_high_surrogate (js_unit c)"
proof -
  have "\<not> 55296 \<le> (of_char c :: nat)" using of_char_less [of c] by linarith
  then show ?thesis by (simp add: is_high_surrogate_def word_le_nat_alt unat_js_unit)
qed

lemma code_points_js_str: "code_points (js_str s) = map (\<lambda>c. [js_unit c]) s"
proof (induction s)
  case Nil
  show ?case by (simp add: js_str_def)
next
  case (Cons a s)
  then show ?case by (cases s) (simp_all add: js_str_def not_high_surrogate)
qed

lemma unat_js_unit_less: "unat (js_unit c) < 256"
  by (simp only: unat_js_unit of_char_less)

lemma js_unit_literal:
  "js_unit (CHR ''A'') = 0x41" "js_unit (CHR ''Z'') = 0x5A"
  "js_unit (CHR ''a'') = 0x61" "js_unit (CHR ''z'') = 0x7A"
  "js_unit (CHR ''0'') = 0x30" "js_unit (CHR ''9'') = 0x39"
  "js_unit (CHR 0x0A) = 0x0A" "js_unit (CHR 0x0D) = 0x0D"
  by (simp_all add: js_unit_def)

lemma js_upper: "js_ge [js_unit c] (js_str ''A'') \<and> js_le [js_unit c] (js_str ''Z'') \<longleftrightarrow> isupper c"
  by (simp add: js_ge_def js_le_def js_str_def isupper_def js_unit_less not_less)

lemma js_lower: "js_ge [js_unit c] (js_str ''a'') \<and> js_le [js_unit c] (js_str ''z'') \<longleftrightarrow> islower c"
  by (simp add: js_ge_def js_le_def js_str_def islower_def js_unit_less not_less)

lemma js_digit: "js_ge [js_unit c] (js_str ''0'') \<and> js_le [js_unit c] (js_str ''9'') \<longleftrightarrow> isdigit c"
  by (simp add: js_ge_def js_le_def js_str_def isdigit_def js_unit_less not_less)

lemma find_str_single: "find_str s [x] = None \<longleftrightarrow> x \<notin> set s"
  by (induction s) auto

lemma same_specials: "set (''!@#$%^&*()-+=~'' @ [CHR 0x60] @ ''[]{}|'' @ [CHR 0x5C] @ '':;''
                         @ [CHR 0x22, CHR 0x27] @ ''<>,.?/'') = set specials"
  by (auto simp: specials_def)

lemma js_special: "js_includes js_specials [js_unit c] \<longleftrightarrow> find_char specials c \<noteq> None"
proof -
  have "js_includes js_specials [js_unit c] \<longleftrightarrow> js_unit c \<in> set js_specials"
    by (simp add: js_includes_def find_str_single)
  also have "\<dots> \<longleftrightarrow> c \<in> set specials"
    unfolding js_specials_def js_str_def set_map same_specials
    by (simp add: inj_image_mem_iff [OF inj_js_unit])
  finally show ?thesis by (simp add: find_char_None_iff)
qed

lemma js_classify_unit: "js_classify [js_unit c] f = classify c f"
  unfolding js_classify_def classify_def js_upper js_lower js_digit js_special by (rule refl)

lemma js_scan_units: "js_scan (map (\<lambda>c. [js_unit c]) s) f = scan s f"
  by (induction s arbitrary: f) (simp_all add: js_classify_unit)

lemma js_typesMet_eq: "js_typesMet f = typesMet f"
  by (simp add: js_typesMet_def typesMet_def)

lemma join_full_stop: "ms \<noteq> [] \<Longrightarrow> join ms '', '' @ ''.'' = join_missing ms"
  by (induction ms rule: join_missing.induct) simp_all

lemma missing_nonempty: "typesMet f \<noteq> 4 \<Longrightarrow> missing f \<noteq> []"
  by (auto simp: typesMet_def missing_def of_bool_def split: if_splits)

lemma js_TypeCriterion_refines: "js_TypeCriterion_check (js_str s) = TypeCriterion_check s"
  by (simp add: js_TypeCriterion_check_def TypeCriterion_check_def TypeCriterion_verdict_def
      Let_def code_points_js_str js_scan_units js_typesMet_eq join_full_stop missing_nonempty)


lemma js_LengthCriterion_refines: "js_LengthCriterion_check (js_str s) = LengthCriterion_check s"
proof (cases "8 \<le> length s")
  case True
  then show ?thesis
    by (simp add: js_LengthCriterion_check_def LengthCriterion_check_def Let_def minLength_def
        js_str_def)
next
  case False
  then have l: "length s < 8" by simp
  then have "nat (max 0 (8 - int (length s))) = 8 - length s" by simp
  with l False show ?thesis
    by (simp add: js_LengthCriterion_check_def LengthCriterion_check_def Let_def minLength_def
        js_str_def unat_shortfall)
qed

lemma match_here_map:
  assumes "inj f"
  shows "match_here d re (map_option f cap) (map f s) = match_here (\<lambda>c. d (f c)) re cap s"
  by (induction "\<lambda>c. d (f c)" re cap s rule: match_here.induct)
     (simp_all add: inj_eq [OF assms])

lemma regex_search_map:
  assumes "inj f"
  shows "regex_search d re (map f s) = regex_search (\<lambda>c. d (f c)) re s"
proof (induction s)
  case Nil
  show ?case using match_here_map [OF assms, of d re None "[]"] by simp
next
  case (Cons a s)
  then show ?case using match_here_map [OF assms, of d re None "a # s"] by simp
qed

lemma dot_js_unit: "dot_js (js_unit c) = dot_char c"
proof -
  have "js_unit c \<noteq> 0x2028" "js_unit c \<noteq> 0x2029"
    using unat_js_unit_less [of c] by auto
  moreover have "js_unit c = 0x0A \<longleftrightarrow> c = CHR 0x0A" "js_unit c = 0x0D \<longleftrightarrow> c = CHR 0x0D"
    using js_unit_eq_iff [of c "CHR 0x0A"] js_unit_eq_iff [of c "CHR 0x0D"]
    by (simp_all add: js_unit_literal)
  ultimately show ?thesis by (simp add: dot_js_def dot_char_def)
qed

lemma js_RepetitionCriterion_refines:
  "js_RepetitionCriterion_check (js_str s) = RepetitionCriterion_check s"
proof -
  have "(\<lambda>c. dot_js (js_unit c)) = dot_char" by (rule ext) (rule dot_js_unit)
  then show ?thesis
    by (simp add: js_RepetitionCriterion_check_def RepetitionCriterion_check_def Let_def
        js_str_def regex_search_map [OF inj_js_unit])
qed

lemma starts_with_map: "inj f \<Longrightarrow> starts_with (map f s) (map f w) = starts_with s w"
  by (induction s w rule: starts_with.induct) (simp_all add: inj_eq)

lemma find_str_map: "inj f \<Longrightarrow> find_str (map f s) (map f w) = find_str s w"
proof (induction s)
  case Nil
  then show ?case using starts_with_map [of f "[]" w] by simp
next
  case (Cons a s)
  then show ?case using starts_with_map [of f "a # s" w] by simp
qed

lemma some_includes_any_weak:
  "some_includes (js_str s) (map js_str ws) = any_weak s ws"
  by (induction ws)
     (simp_all add: js_includes_def js_str_def find_str_map [OF inj_js_unit] del: find_str.simps)

lemma js_ascii_lower_unit: "js_ascii_lower (js_unit c) = js_unit (tolower c)"
proof (cases "isupper c")
  case True
  then have r: "65 \<le> (of_char c :: nat)" "(of_char c :: nat) \<le> 90" by (simp_all add: isupper_nat)
  then have "of_char (char_of (of_char c + 32 :: nat)) = (of_char c + 32 :: nat)" by simp
  then have "js_unit (tolower c) = js_unit c + 0x20"
    using True by (simp add: tolower_def js_unit_def)
  moreover have "0x41 \<le> js_unit c \<and> js_unit c \<le> 0x5A"
    using r by (simp add: word_le_nat_alt unat_js_unit)
  ultimately show ?thesis by (simp add: js_ascii_lower_def)
next
  case False
  then have "\<not> (0x41 \<le> js_unit c \<and> js_unit c \<le> 0x5A)"
    by (simp add: word_le_nat_alt unat_js_unit isupper_nat)
  with False show ?thesis by (simp add: js_ascii_lower_def tolower_def)
qed

lemma ascii_units: "list_all (\<lambda>u. u < 0x80) (js_str s) \<longleftrightarrow> (\<forall>c\<in>set s. (of_char c :: nat) < 128)"
  by (simp add: js_str_def list_all_iff word_less_nat_alt unat_js_unit)

lemma toLowerCase_ascii:
  "\<forall>c\<in>set s. (of_char c :: nat) < 128 \<Longrightarrow> toLowerCase lower (js_str s) = js_str (map tolower s)"
  by (simp add: toLowerCase_def ascii_units) (simp add: js_str_def js_ascii_lower_unit)

lemma js_DictionaryCriterion_refines:
  "\<forall>c\<in>set s. (of_char c :: nat) < 128 \<Longrightarrow>
   js_DictionaryCriterion_check lower (js_str s) = DictionaryCriterion_check s"
  by (simp add: js_DictionaryCriterion_check_def DictionaryCriterion_check_def Let_def
      toLowerCase_ascii js_weakList_def weakList_def [symmetric] some_includes_any_weak)

lemma js_run_criteria_all:
  "js_run_criteria lower criteria p (0, []) =
     (score (js_LengthCriterion_check p) + score (js_TypeCriterion_check p)
        + score (js_RepetitionCriterion_check p) + score (js_DictionaryCriterion_check lower p),
      [(getName LengthCriterion, js_LengthCriterion_check p),
       (getName TypeCriterion, js_TypeCriterion_check p),
       (getName RepetitionCriterion, js_RepetitionCriterion_check p),
       (getName DictionaryCriterion, js_DictionaryCriterion_check lower p)])"
  by (simp add: criteria_def Let_def)

lemma js_PasswordChecker_refines:
  assumes "\<forall>c\<in>set s. (of_char c :: nat) < 128"
  shows "js_score (js_PasswordChecker_check lower (js_str s)) = total_score (PasswordChecker_check s)"
    and "map snd (js_results (js_PasswordChecker_check lower (js_str s)))
           = results (PasswordChecker_check s)"
    and "map fst (js_results (js_PasswordChecker_check lower (js_str s)))
           = (if s = [] then [] else map getName criteria)"
proof -
  have e: "js_str s = [] \<longleftrightarrow> s = []" by (simp add: js_str_def)
  note r = js_LengthCriterion_refines js_TypeCriterion_refines js_RepetitionCriterion_refines
    js_DictionaryCriterion_refines [OF assms]
  show "js_score (js_PasswordChecker_check lower (js_str s)) = total_score (PasswordChecker_check s)"
    by (simp add: js_PasswordChecker_check_def PasswordChecker_check_def e js_run_criteria_all
        run_criteria_all r del: getName.simps)
  show "map snd (js_results (js_PasswordChecker_check lower (js_str s)))
           = results (PasswordChecker_check s)"
    by (simp add: js_PasswordChecker_check_def PasswordChecker_check_def e js_run_criteria_all
        run_criteria_all r del: getName.simps)
  show "map fst (js_results (js_PasswordChecker_check lower (js_str s)))
           = (if s = [] then [] else map getName criteria)"
    by (simp add: js_PasswordChecker_check_def e js_run_criteria_all Let_def)
       (simp add: criteria_def)
qed

lemma utf16_ascii: "\<forall>n\<in>set cps. n < 128 \<Longrightarrow> utf16 cps = js_str (utf8 cps)"
proof -
  assume a: "\<forall>n\<in>set cps. n < 128"
  have "utf16 cps = map of_nat cps"
    using a by (induction cps) (simp_all add: utf16_def utf16_cp_def)
  moreover have "js_str (map char_of cps) = map of_nat cps"
    using a by (induction cps) (simp_all add: js_str_def js_unit_def)
  ultimately show ?thesis using a by (simp add: utf8_ascii)
qed

lemma utf8_ascii_chars:
  assumes "\<forall>n\<in>set cps. n < 128"
  shows "\<forall>c\<in>set (utf8 cps). (of_char c :: nat) < 128"
proof
  fix c assume "c \<in> set (utf8 cps)"
  then obtain n where n: "n \<in> set cps" and c: "c = char_of n"
    using assms by (auto simp: utf8_ascii)
  from n assms have "n < 128" by blast
  then have "n mod 256 = n" by simp
  with c \<open>n < 128\<close> show "(of_char c :: nat) < 128" by simp
qed

lemma euro_pound_utf8:
  "utf8 [0x20AC, 0xA3, 0x20AC, 0xA3] =
     [CHR 0xE2, CHR 0x82, CHR 0xAC, CHR 0xC2, CHR 0xA3, CHR 0xE2, CHR 0x82, CHR 0xAC, CHR 0xC2,
      CHR 0xA3]"
  by (simp add: utf8_def utf8_cp_def char_of_def bit_0)

lemma euro_pound_utf16: "utf16 [0x20AC, 0xA3, 0x20AC, 0xA3] = [0x20AC, 0xA3, 0x20AC, 0xA3]"
  by (simp add: utf16_def utf16_cp_def)

lemma passw0rd_utf8: "utf8 [80, 97, 115, 115, 119, 48, 114, 100, 33] = ''Passw0rd!''"
  by (simp add: utf8_def utf8_cp_def char_of_def bit_0)

lemma length_verdicts_differ:
  "\<not> met (snd (hd (js_results (js_PasswordChecker_check lower (utf16 [0x20AC, 0xA3, 0x20AC, 0xA3])))))
   \<and> met (hd (results (PasswordChecker_check (utf8 [0x20AC, 0xA3, 0x20AC, 0xA3]))))"
  unfolding euro_pound_utf8 euro_pound_utf16
  by (simp add: js_PasswordChecker_check_def PasswordChecker_check_def js_run_criteria_all
      run_criteria_all Let_def js_LengthCriterion_check_def LengthCriterion_check_def
      minLength_def)

lemma js_repetition_line_terminators:
  "met (js_RepetitionCriterion_check [0x0D, 0x0D, 0x0D])
   \<and> met (js_RepetitionCriterion_check [0x2028, 0x2028, 0x2028])"
  by code_simp

subsection \<open>The claim about the two cores\<close>

text \<open>
  C10: the claim says that the two cores return equal results for every password string.
  The text of the four characters euro sign, pound sign, euro sign, pound sign (which have no
  case, so lower-casing leaves them alone) is ten \<open>char\<close>s in UTF-8 and four code units in
  UTF-16: the C++ core finds the length criterion met and returns 50, the JavaScript core
  finds it not met and returns 25.
\<close>

theorem C10_counterexample:
  "js_score (js_PasswordChecker_check id (utf16 [0x20AC, 0xA3, 0x20AC, 0xA3])) = 25
   \<and> total_score (PasswordChecker_check (utf8 [0x20AC, 0xA3, 0x20AC, 0xA3])) = 50
   \<and> map (\<lambda>r. met (snd r)) (js_results (js_PasswordChecker_check id (utf16 [0x20AC, 0xA3, 0x20AC, 0xA3])))
       = [False, False, True, True]
   \<and> map met (results (PasswordChecker_check (utf8 [0x20AC, 0xA3, 0x20AC, 0xA3])))
       = [True, False, True, True]
   \<and> js_score (js_PasswordChecker_check id (utf16 [0x20AC, 0xA3, 0x20AC, 0xA3]))
       \<noteq> total_score (PasswordChecker_check (utf8 [0x20AC, 0xA3, 0x20AC, 0xA3]))"
  unfolding euro_pound_utf8 euro_pound_utf16 by code_simp

text \<open>
  C10, as amended: for every password string of ASCII characters only (code points below 128)
  and whatever the engine's lower-casing does outside ASCII, the two cores return equal
  results: the same total score and, position by position, the same verdicts, that is the same
  met flags, the same scores and also the same messages.
\<close>

theorem C10_cores_agree_on_ascii:
  assumes "\<forall>n\<in>set cps. n < 128"
  shows "js_score (js_PasswordChecker_check lower (utf16 cps))
           = total_score (PasswordChecker_check (utf8 cps))
       \<and> map (\<lambda>r. met (snd r)) (js_results (js_PasswordChecker_check lower (utf16 cps)))
           = map met (results (PasswordChecker_check (utf8 cps)))
       \<and> map (\<lambda>r. score (snd r)) (js_results (js_PasswordChecker_check lower (utf16 cps)))
           = map score (results (PasswordChecker_check (utf8 cps)))
       \<and> map snd (js_results (js_PasswordChecker_check lower (utf16 cps)))
           = results (PasswordChecker_check (utf8 cps))"
proof -
  note a = utf8_ascii_chars [OF assms]
  have u: "utf16 cps = js_str (utf8 cps)" by (rule utf16_ascii [OF assms])
  have r: "map snd (js_results (js_PasswordChecker_check lower (utf16 cps)))
           = results (PasswordChecker_check (utf8 cps))"
    unfolding u by (rule js_PasswordChecker_refines(2) [OF a])
  have "map (\<lambda>r. met (snd r)) (js_results (js_PasswordChecker_check lower (utf16 cps)))
      = map met (map snd (js_results (js_PasswordChecker_check lower (utf16 cps))))"
    by simp
  then have m: "map (\<lambda>r. met (snd r)) (js_results (js_PasswordChecker_check lower (utf16 cps)))
      = map met (results (PasswordChecker_check (utf8 cps)))"
    by (simp only: r)
  have "map (\<lambda>r. score (snd r)) (js_results (js_PasswordChecker_check lower (utf16 cps)))
      = map score (map snd (js_results (js_PasswordChecker_check lower (utf16 cps))))"
    by simp
  then have s: "map (\<lambda>r. score (snd r)) (js_results (js_PasswordChecker_check lower (utf16 cps)))
      = map score (results (PasswordChecker_check (utf8 cps)))"
    by (simp only: r)
  have "js_score (js_PasswordChecker_check lower (utf16 cps))
           = total_score (PasswordChecker_check (utf8 cps))"
    unfolding u by (rule js_PasswordChecker_refines(1) [OF a])
  with r m s show ?thesis by blast
qed

theorem C10_cores_agree_on_ascii_witness:
  "utf8 [80, 97, 115, 115, 119, 48, 114, 100, 33] = ''Passw0rd!''
   \<and> js_score (js_PasswordChecker_check id (utf16 [80, 97, 115, 115, 119, 48, 114, 100, 33]))
       = total_score (PasswordChecker_check (utf8 [80, 97, 115, 115, 119, 48, 114, 100, 33]))
   \<and> map snd (js_results (js_PasswordChecker_check id (utf16 [80, 97, 115, 115, 119, 48, 114, 100, 33])))
       = results (PasswordChecker_check (utf8 [80, 97, 115, 115, 119, 48, 114, 100, 33]))"
proof -
  have h: "\<forall>n\<in>set [80, 97, 115, 115, 119, 48, 114, 100, 33]. n < (128::nat)" by simp
  have e: "utf8 [80, 97, 115, 115, 119, 48, 114, 100, 33] = ''Passw0rd!''"
    by (rule passw0rd_utf8)
  from C10_cores_agree_on_ascii [OF h, of id] e show ?thesis by blast
qed

end
